theory Spec2Isabelle
  imports Main "HOL-Library.Word"
begin

unbundle bit_operations_syntax

section \<open>NrFileCompressor: data model\<close>

text \<open>
  A shallow embedding of \<^verbatim>\<open>src/src/NrFileCompressor.cpp\<close> and
  \<^verbatim>\<open>NrFileCompressor.h\<close>. Bytes are \<open>8 word\<close>, \<^verbatim>\<open>quint32\<close> is \<open>32 word\<close>.
  \<^verbatim>\<open>qint64\<close> quantities (file sizes, byte counts, milliseconds) are \<open>int\<close>: the code
  never overflows them, and every narrowing cast is written out where it happens.
  \<^verbatim>\<open>QString\<close> is \<open>string\<close>; \<^verbatim>\<open>toLatin1()\<close> is the identity on it.
\<close>

type_synonym byte = "8 word"
type_synonym quint32 = "32 word"

text \<open>\<^verbatim>\<open>enum compressedFileFormatEnum\<close> and \<^verbatim>\<open>enum CompressErrorType\<close> of the header.\<close>

datatype compressedFileFormatEnum = NO_COMPRESSION | GZIP_ARCHIVE | ZIP_ARCHIVE

definition E_FILE_NOT_OPEN :: int where "E_FILE_NOT_OPEN = - 1"
definition E_FILE_NOT_WRITEABLE :: int where "E_FILE_NOT_WRITEABLE = - 2"
definition E_MINIZ_ERROR :: int where "E_MINIZ_ERROR = - 3"

text \<open>
  \<^verbatim>\<open>EXIT_FAILURE\<close> is the macro of \<^verbatim>\<open><cstdlib>\<close>; its value is 1 on every platform Qt
  builds on (glibc, musl, MSVC, macOS). \<^verbatim>\<open>Z_OK\<close> and \<^verbatim>\<open>Z_STREAM_END\<close> are the zlib status
  codes that \<^verbatim>\<open>miniz.h\<close> keeps.
\<close>

definition EXIT_FAILURE :: int where "EXIT_FAILURE = 1"
definition Z_OK :: int where "Z_OK = 0"
definition Z_STREAM_END :: int where "Z_STREAM_END = 1"

datatype flush = Z_NO_FLUSH | Z_FINISH

definition GZIP_EXT :: string where "GZIP_EXT = ''.gz''"
definition ZIP_EXT :: string where "ZIP_EXT = ''.zip''"

definition BUF_SIZE :: int where "BUF_SIZE = 1024 * 1024"

subsection \<open>The platform and the file system\<close>

text \<open>
  What the code reads from its surroundings: the two preprocessor-visible platform facts
  (\<^verbatim>\<open>WIN32\<close>, and \<^verbatim>\<open>LONG_MAX\<close> of \<^verbatim>\<open><climits>\<close>), the working directory, and the files.
  \<open>files p\<close> is the content of the file at path \<open>p\<close> (\<open>None\<close>: \<^verbatim>\<open>QFile::exists\<close> is
  false), \<open>lastModified p\<close> is \<^verbatim>\<open>QFileInfo::lastModified().toMSecsSinceEpoch()\<close>,
  \<open>open_ReadOnly\<close> and \<open>open_WriteOnly\<close> tell whether \<^verbatim>\<open>QFile::open\<close> succeeds, and
  \<open>room p\<close> is the number of bytes the device accepts for the file opened for writing at
  \<open>p\<close> (\<open>None\<close>: no limit), after which \<^verbatim>\<open>QFile::write\<close> comes back short.
\<close>

record env =
  WIN32 :: bool
  LONG_MAX :: int
  currentPath :: string
  files :: "string \<Rightarrow> byte list option"
  lastModified :: "string \<Rightarrow> int"
  open_ReadOnly :: "string \<Rightarrow> bool"
  open_WriteOnly :: "string \<Rightarrow> bool"
  room :: "string \<Rightarrow> nat option"

text \<open>A \<^verbatim>\<open>QFile\<close> open for writing: what it holds so far and the room left.\<close>

record qfile =
  bytes :: "byte list"
  left :: "nat option"

definition qwrite :: "qfile \<Rightarrow> byte list \<Rightarrow> int \<times> qfile" where
  "qwrite f bs =
     (let k = (case left f of None \<Rightarrow> length bs | Some r \<Rightarrow> min r (length bs))
      in (int k, \<lparr>bytes = bytes f @ take k bs, left = map_option (\<lambda>r. r - k) (left f)\<rparr>))"

subsection \<open>The miniz library\<close>

text \<open>
  \<^verbatim>\<open>miniz.h\<close> is a third-party library and is not part of the sources, so the code is
  verified against an arbitrary library \<open>lib\<close>.

  The compressor keeps a state of some type \<open>'s\<close>. \<open>deflateInit2 lib level\<close> gives the
  status and the initial state. \<open>deflate lib s input avail_out fl\<close> is one call of
  \<^verbatim>\<open>deflate(&stream, fl)\<close> with \<open>input\<close> the \<^verbatim>\<open>avail_in\<close> bytes at \<^verbatim>\<open>next_in\<close>: it gives
  the status, the number of input bytes consumed, the bytes produced and the new state.

  The archive functions \<^verbatim>\<open>mz_zip_*\<close> are given by their results: whether each call
  succeeds, the number of entries of the archive that is read, and for entry \<open>i\<close> its
  stored name (\<open>None\<close>: \<^verbatim>\<open>mz_zip_reader_file_stat\<close> fails) and whether it is a directory.
\<close>

record 's miniz =
  deflateInit2 :: "int \<Rightarrow> int \<times> 's"
  deflate :: "'s \<Rightarrow> byte list \<Rightarrow> nat \<Rightarrow> flush \<Rightarrow> int \<times> nat \<times> byte list \<times> 's"
  deflateEnd :: "'s \<Rightarrow> int"
  mz_zip_writer_init_file :: "string \<Rightarrow> bool"
  mz_zip_writer_add_file :: "string \<Rightarrow> string \<Rightarrow> string \<Rightarrow> int \<Rightarrow> bool"
  mz_zip_writer_finalize_archive :: bool
  mz_zip_writer_end :: bool
  mz_zip_reader_init_file :: "string \<Rightarrow> bool"
  mz_zip_reader_get_num_files :: nat
  mz_zip_reader_file_stat :: "nat \<Rightarrow> string option"
  mz_zip_reader_is_file_a_directory :: "nat \<Rightarrow> bool"
  mz_zip_reader_extract_to_file :: "nat \<Rightarrow> string \<Rightarrow> bool"

text \<open>The calls made on an archive handle, in order, each with its result.\<close>

datatype mz_zip_call =
    Writer_init_file string bool
  | Writer_add_file string string string int bool
  | Writer_finalize_archive bool
  | Writer_end bool
  | Reader_init_file string bool
  | Reader_extract_to_file nat string bool
  | Reader_end

text \<open>The calls that close an archive handle.\<close>

fun is_end :: "mz_zip_call \<Rightarrow> bool" where
  "is_end (Writer_end ok) = True"
| "is_end Reader_end = True"
| "is_end c = False"

text \<open>
  What a call leaves behind: its return code, the file it opened for writing with
  \<^verbatim>\<open>QFile\<close> (path and bytes; \<open>None\<close> when it opened none), and the archive calls it made.
\<close>

record outcome =
  rc :: int
  written :: "(string \<times> byte list) option"
  zip_calls :: "mz_zip_call list"

section \<open>File names and paths\<close>

text \<open>\<^verbatim>\<open>QString::replace(before, after)\<close> for one-character strings.\<close>

definition QString_replace :: "char \<Rightarrow> char \<Rightarrow> string \<Rightarrow> string" where
  "QString_replace before after s = map (\<lambda>c. if c = before then after else c) s"

definition calculateNameCompliantWithZipAlgoMiniZ :: "string \<Rightarrow> string" where
  "calculateNameCompliantWithZipAlgoMiniZ filename =
     (let s = filename;
          s = QString_replace (CHR 0x5C) (CHR ''_'') s;
          s = QString_replace (CHR ''/'') (CHR ''_'') s;
          s = QString_replace (CHR '':'') (CHR ''_'') s
      in s)"

text \<open>
  Modelled from the spec: \<^verbatim>\<open>QDir::fromNativeSeparators\<close> is Qt's and is not in the
  sources. The spec has it normalize the directory "to forward-slash form"; Qt does that
  where the native separator is the backslash (Windows) and returns the path as it is
  elsewhere.
\<close>

definition fromNativeSeparators :: "env \<Rightarrow> string \<Rightarrow> string" where
  "fromNativeSeparators e pathName =
     (if WIN32 e then QString_replace (CHR 0x5C) (CHR ''/'') pathName else pathName)"

definition endsWith_slash :: "string \<Rightarrow> bool" where
  "endsWith_slash s = (case rev s of [] \<Rightarrow> False | c # _ \<Rightarrow> c = CHR ''/'')"

definition calculateFilenameWithPath :: "env \<Rightarrow> string \<Rightarrow> string \<Rightarrow> string" where
  "calculateFilenameWithPath e i_dstPath filename =
     (let destfileWithpath = fromNativeSeparators e i_dstPath;
          destfileWithpath =
            (if endsWith_slash destfileWithpath then destfileWithpath
             else destfileWithpath @ ''/'')
      in destfileWithpath @ filename)"

fun getCompressedFilename :: "string \<Rightarrow> compressedFileFormatEnum \<Rightarrow> string" where
  "getCompressedFilename i_fileName GZIP_ARCHIVE = i_fileName @ GZIP_EXT"
| "getCompressedFilename i_fileName ZIP_ARCHIVE =
     calculateNameCompliantWithZipAlgoMiniZ i_fileName @ ZIP_EXT"
| "getCompressedFilename i_fileName NO_COMPRESSION = i_fileName"

text \<open>
  The spec's \<open>joinPath\<close>, from its words: the normalized directory "with exactly one
  trailing separator", whatever separators it ended with, then the name.
\<close>

definition strip_slashes :: "string \<Rightarrow> string" where
  "strip_slashes s = rev (dropWhile (\<lambda>c. c = CHR ''/'') (rev s))"

definition trailing_slashes :: "string \<Rightarrow> nat" where
  "trailing_slashes s = length (takeWhile (\<lambda>c. c = CHR ''/'') (rev s))"

definition joinPath_spec :: "env \<Rightarrow> string \<Rightarrow> string \<Rightarrow> string" where
  "joinPath_spec e dir name = strip_slashes (fromNativeSeparators e dir) @ ''/'' @ name"

section \<open>The ZIP part\<close>

definition s_pComment :: string where
  "s_pComment = ''Zipped with NrFileCompressor! Invalid chars replaced with _''"

definition compressZipFile ::
  "'s miniz \<Rightarrow> env \<Rightarrow> string \<Rightarrow> string \<Rightarrow> string \<Rightarrow> int \<Rightarrow> outcome" where
  "compressZipFile lib e i_filename i_srcpath i_dstpath level =
     (let compressedfilename = getCompressedFilename i_filename ZIP_ARCHIVE;
          destfilename = calculateFilenameWithPath e i_dstpath compressedfilename;
          srcfilename = calculateFilenameWithPath e i_srcpath i_filename;
          c1 = [Writer_init_file destfilename (mz_zip_writer_init_file lib destfilename)];
          added = mz_zip_writer_add_file lib compressedfilename srcfilename s_pComment level;
          c2 = c1 @ [Writer_add_file compressedfilename srcfilename s_pComment level added];
          c3 = c2 @ [Writer_finalize_archive (mz_zip_writer_finalize_archive lib)];
          c4 = c3 @ [Writer_end (mz_zip_writer_end lib)]
      in if files e srcfilename = None
         then \<lparr>rc = E_FILE_NOT_OPEN, written = None, zip_calls = []\<rparr>
         else if \<not> mz_zip_writer_init_file lib destfilename
         then \<lparr>rc = EXIT_FAILURE, written = None, zip_calls = c1\<rparr>
         else if \<not> added
         then \<lparr>rc = EXIT_FAILURE, written = None, zip_calls = c2\<rparr>
         else if \<not> mz_zip_writer_finalize_archive lib
         then \<lparr>rc = EXIT_FAILURE, written = None, zip_calls = c3\<rparr>
         else if \<not> mz_zip_writer_end lib
         then \<lparr>rc = EXIT_FAILURE, written = None, zip_calls = c4\<rparr>
         else \<lparr>rc = 0, written = None, zip_calls = c4\<rparr>)"

text \<open>
  Modelled from the spec: \<^verbatim>\<open>QFileInfo::fileName\<close> is Qt's; the spec has it keep "only the
  base name (last path component)" of the stored entry name.
\<close>

definition fileName :: "string \<Rightarrow> string" where
  "fileName s = rev (takeWhile (\<lambda>c. \<not> c = CHR ''/'') (rev s))"

text \<open>
  The extraction loop \<^verbatim>\<open>for (uint i = 0; i < count; ++i)\<close>. The result is \<open>Some\<close> of the
  code returned from inside the loop, or \<open>None\<close> when the loop runs to its end.
\<close>

function extract_files ::
  "'s miniz \<Rightarrow> string \<Rightarrow> nat \<Rightarrow> nat \<Rightarrow> mz_zip_call list \<Rightarrow> int option \<times> mz_zip_call list" where
  "extract_files lib destDir count i calls =
     (if i < count then
        (case mz_zip_reader_file_stat lib i of
           None \<Rightarrow> extract_files lib destDir count (i + 1) calls
         | Some m_filename \<Rightarrow>
             if mz_zip_reader_is_file_a_directory lib i
             then extract_files lib destDir count (i + 1) calls
             else
               (let destfn = fileName m_filename;
                    destfilename = (if destDir = [] then ''.'' else destDir) @ ''/'' @ destfn;
                    res = mz_zip_reader_extract_to_file lib i destfilename;
                    calls = calls @ [Reader_extract_to_file i destfilename res]
                in if \<not> res then (Some EXIT_FAILURE, calls)
                   else extract_files lib destDir count (i + 1) calls))
      else (None, calls))"
  by pat_completeness auto
termination
  by (relation "measure (\<lambda>(lib, destDir, count, i, calls). count - i)") auto

declare extract_files.simps [simp del]

definition uncompressZipFile :: "'s miniz \<Rightarrow> string \<Rightarrow> string \<Rightarrow> outcome" where
  "uncompressZipFile lib filename destDir =
     (let c1 = [Reader_init_file filename (mz_zip_reader_init_file lib filename)];
          count = mz_zip_reader_get_num_files lib
      in if \<not> mz_zip_reader_init_file lib filename
         then \<lparr>rc = EXIT_FAILURE, written = None, zip_calls = c1\<rparr>
         else if count = 0
         then \<lparr>rc = 0, written = None, zip_calls = c1 @ [Reader_end]\<rparr>
         else (case extract_files lib destDir count 0 c1 of
                 (Some r, calls) \<Rightarrow> \<lparr>rc = r, written = None, zip_calls = calls\<rparr>
               | (None, calls) \<Rightarrow> \<lparr>rc = 0, written = None, zip_calls = calls @ [Reader_end]\<rparr>))"

section \<open>The gzip part\<close>

definition getByte :: "quint32 \<Rightarrow> byte \<Rightarrow> byte" where
  "getByte var bytenum =
     (let shift = (if bytenum = 1 then 8 else if bytenum = 2 then 16
                   else if bytenum = 3 then 24 else 0)
      in ucast (drop_bit shift var AND 0xFF))"

text \<open>
  Each \<^verbatim>\<open>pFile->write\<close> of the header and of the footer is a \<open>qwrite\<close> whose count the code
  drops. \<^verbatim>\<open>const char id2 = 139\<close> is the byte \<open>0x8B\<close>.
\<close>

definition writeGzipHeader :: "env \<Rightarrow> qfile \<Rightarrow> quint32 \<Rightarrow> int \<times> qfile" where
  "writeGzipHeader e pFile i_mtime =
     (let id1 = 31; id2 = 139; cm = 8; flg = 0; xflg = 0;
          os = (if WIN32 e then 0 else 3);
          mtime = [getByte i_mtime 0, getByte i_mtime 1, getByte i_mtime 2, getByte i_mtime 3];
          pFile = snd (qwrite pFile [id1]);
          pFile = snd (qwrite pFile [id2]);
          pFile = snd (qwrite pFile [cm]);
          pFile = snd (qwrite pFile [flg]);
          pFile = snd (qwrite pFile mtime);
          pFile = snd (qwrite pFile [xflg]);
          pFile = snd (qwrite pFile [os])
      in (0, pFile))"

definition writeGzipFooter :: "qfile \<Rightarrow> quint32 \<Rightarrow> quint32 \<Rightarrow> int \<times> qfile" where
  "writeGzipFooter pFile i_crc32 i_size =
     (let size = [getByte i_size 0, getByte i_size 1, getByte i_size 2, getByte i_size 3];
          crc32 = [getByte i_crc32 0, getByte i_crc32 1, getByte i_crc32 2, getByte i_crc32 3];
          pFile = snd (qwrite pFile crc32);
          pFile = snd (qwrite pFile size)
      in (0, pFile))"

subsection \<open>The checksum\<close>

text \<open>
  Modelled from the spec: \<^verbatim>\<open>mz_crc32\<close> is miniz's and is not in the sources. The spec has
  it be the CRC32 of RFC 1952 (reflected polynomial \<open>0xEDB88320\<close>, complemented on entry
  and on exit), continued from a running value; with a null buffer it gives the value for
  no input, \<^verbatim>\<open>MZ_CRC32_INIT\<close>.
\<close>

definition MZ_CRC32_INIT :: quint32 where "MZ_CRC32_INIT = 0"

definition crc_shift :: "quint32 \<Rightarrow> quint32" where
  "crc_shift c = (if bit c 0 then drop_bit 1 c XOR 0xEDB88320 else drop_bit 1 c)"

definition crc_byte :: "quint32 \<Rightarrow> byte \<Rightarrow> quint32" where
  "crc_byte c b =
     crc_shift (crc_shift (crc_shift (crc_shift
       (crc_shift (crc_shift (crc_shift (crc_shift (c XOR ucast b))))))))"

fun mz_crc32 :: "quint32 \<Rightarrow> byte list option \<Rightarrow> quint32" where
  "mz_crc32 crc None = MZ_CRC32_INIT"
| "mz_crc32 crc (Some buf) = NOT (foldl crc_byte (NOT crc) buf)"

declare mz_crc32.simps [simp del]

subsection \<open>The reading loop\<close>

text \<open>
  The variables the loop of \<^verbatim>\<open>compressGzipFile\<close> changes. \<open>next_in\<close> holds the
  \<^verbatim>\<open>stream.avail_in\<close> bytes of \<^verbatim>\<open>s_inbuf\<close> not yet consumed, \<open>s_outbuf\<close> the bytes
  produced since the buffer was last written out (\<^verbatim>\<open>stream.avail_out\<close> is \<open>BUF_SIZE\<close> less
  their number), \<open>fin\<close> the part of the source not yet read.
\<close>

record 's gz_state =
  stream :: 's
  next_in :: "byte list"
  s_outbuf :: "byte list"
  fin :: "byte list"
  infile_remaining :: int
  crc :: quint32
  fout :: qfile

datatype loop_ctl = Continue | Break | Return int

text \<open>\<^verbatim>\<open>if (!stream.avail_in) { ... }\<close>: \<open>None\<close> is the short read.\<close>

definition read_input :: "'s gz_state \<Rightarrow> 's gz_state option" where
  "read_input s =
     (if next_in s = [] then
        (let n = nat (min BUF_SIZE (infile_remaining s) mod 2 ^ 32);
             got = take n (fin s)
         in if int (length got) = int n
            then Some (s\<lparr>crc := mz_crc32 (crc s) (Some got), next_in := got,
                         fin := drop n (fin s),
                         infile_remaining := infile_remaining s - int n\<rparr>)
            else None)
      else Some s)"

text \<open>
  \<^verbatim>\<open>status = deflate(&stream, infile_remaining ? Z_NO_FLUSH : Z_FINISH)\<close>. The library
  cannot consume more than \<^verbatim>\<open>avail_in\<close> bytes nor produce more than \<^verbatim>\<open>avail_out\<close>.
\<close>

definition call_deflate :: "'s miniz \<Rightarrow> 's gz_state \<Rightarrow> int \<times> 's gz_state" where
  "call_deflate lib s =
     (let avail_out = nat (BUF_SIZE - int (length (s_outbuf s)));
          fl = (if infile_remaining s \<noteq> 0 then Z_NO_FLUSH else Z_FINISH)
      in case deflate lib (stream s) (next_in s) avail_out fl of
           (status, consumed, produced, st) \<Rightarrow>
             (status, s\<lparr>stream := st, next_in := drop consumed (next_in s),
                        s_outbuf := s_outbuf s @ take avail_out produced\<rparr>))"

text \<open>
  \<^verbatim>\<open>if ((status == Z_STREAM_END) || (!stream.avail_out)) { ... }\<close>: \<open>False\<close> is the short
  write, after which the code returns without resetting the buffer.
\<close>

definition write_output :: "int \<Rightarrow> 's gz_state \<Rightarrow> bool \<times> 's gz_state" where
  "write_output status s =
     (if status = Z_STREAM_END \<or> int (length (s_outbuf s)) = BUF_SIZE then
        (let n = int (length (s_outbuf s))
         in case qwrite (fout s) (s_outbuf s) of
              (k, f) \<Rightarrow>
                if k = n then (True, s\<lparr>fout := f, s_outbuf := []\<rparr>)
                else (False, s\<lparr>fout := f\<rparr>))
      else (True, s))"

definition gz_body :: "'s miniz \<Rightarrow> 's gz_state \<Rightarrow> loop_ctl \<times> 's gz_state" where
  "gz_body lib s =
     (case read_input s of
        None \<Rightarrow> (Return E_MINIZ_ERROR, s)
      | Some s1 \<Rightarrow>
          (case call_deflate lib s1 of
             (status, s2) \<Rightarrow>
               (case write_output status s2 of
                  (ok, s3) \<Rightarrow>
                    if \<not> ok then (Return E_MINIZ_ERROR, s3)
                    else if status = Z_STREAM_END then (Break, s3)
                    else if status \<noteq> Z_OK then (Return E_MINIZ_ERROR, s3)
                    else (Continue, s3))))"

text \<open>\<^verbatim>\<open>for ( ; ; )\<close>: the value is \<open>None\<close> when the loop never leaves.\<close>

partial_function (option) gz_loop ::
  "'s miniz \<Rightarrow> 's gz_state \<Rightarrow> (loop_ctl \<times> 's gz_state) option" where
  "gz_loop lib s =
     (let r = gz_body lib s
      in if fst r = Continue then gz_loop lib (snd r) else Some r)"

text \<open>The quotient of \<^verbatim>\<open>qint64\<close> division, which truncates towards zero.\<close>

definition cdiv :: "int \<Rightarrow> int \<Rightarrow> int" where
  "cdiv a b = sgn a * sgn b * (\<bar>a\<bar> div \<bar>b\<bar>)"

definition gz_outcome :: "int \<Rightarrow> string \<Rightarrow> qfile \<Rightarrow> outcome" where
  "gz_outcome r destfilename f = \<lparr>rc = r, written = Some (destfilename, bytes f), zip_calls = []\<rparr>"

definition compressGzipFile ::
  "'s miniz \<Rightarrow> env \<Rightarrow> string \<Rightarrow> string \<Rightarrow> string \<Rightarrow> int \<Rightarrow> outcome option" where
  "compressGzipFile lib e i_filename i_srcpath i_dstpath level =
     (let compressedfilename = getCompressedFilename i_filename GZIP_ARCHIVE;
          destfilename = calculateFilenameWithPath e i_dstpath compressedfilename;
          srcfilename = calculateFilenameWithPath e i_srcpath i_filename
      in case files e srcfilename of
           None \<Rightarrow> Some \<lparr>rc = E_FILE_NOT_OPEN, written = None, zip_calls = []\<rparr>
         | Some content \<Rightarrow>
             (let b = True;
                  b = (b \<and> open_ReadOnly e srcfilename);
                  b = (b \<and> open_WriteOnly e destfilename)
              in if \<not> b
                 then Some \<lparr>rc = E_FILE_NOT_OPEN,
                            written = (if open_WriteOnly e destfilename
                                       then Some (destfilename, []) else None),
                            zip_calls = []\<rparr>
                 else
                   (let fout0 = snd (writeGzipHeader e \<lparr>bytes = [], left = room e destfilename\<rparr>
                                      (word_of_int (cdiv (lastModified e srcfilename) 1000)));
                        finSize = int (length content);
                        infile_remaining0 = finSize
                    in case deflateInit2 lib level of
                         (st, strm) \<Rightarrow>
                           if st \<noteq> Z_OK then Some (gz_outcome E_MINIZ_ERROR destfilename fout0)
                           else
                             (case gz_loop lib
                                     \<lparr>stream = strm, next_in = [], s_outbuf = [], fin = content,
                                      infile_remaining = infile_remaining0,
                                      crc = mz_crc32 0 None, fout = fout0\<rparr> of
                                None \<Rightarrow> None
                              | Some (ctl, s) \<Rightarrow>
                                  (case ctl of
                                     Return r \<Rightarrow> Some (gz_outcome r destfilename (fout s))
                                   | _ \<Rightarrow>
                                       if deflateEnd lib (stream s) \<noteq> Z_OK
                                       then Some (gz_outcome E_MINIZ_ERROR destfilename (fout s))
                                       else
                                         (let modsize = (word_of_int (finSize AND (LONG_MAX e - 1))
                                                          :: quint32)
                                          in Some (gz_outcome Z_OK destfilename
                                                    (snd (writeGzipFooter (fout s) (crc s) modsize)))))))))"

section \<open>The entry point\<close>

definition fileCompress ::
  "'s miniz \<Rightarrow> env \<Rightarrow> string \<Rightarrow> string \<Rightarrow> string \<Rightarrow> compressedFileFormatEnum \<Rightarrow> int
     \<Rightarrow> outcome option" where
  "fileCompress lib e i_fileName i_srcpath i_dstpath i_algo i_lev =
     (if i_algo = GZIP_ARCHIVE
      then compressGzipFile lib e i_fileName i_srcpath i_dstpath i_lev
      else Some (compressZipFile lib e i_fileName i_srcpath i_dstpath i_lev))"

definition fileCompress_cwd ::
  "'s miniz \<Rightarrow> env \<Rightarrow> string \<Rightarrow> string \<Rightarrow> compressedFileFormatEnum \<Rightarrow> int \<Rightarrow> outcome option" where
  "fileCompress_cwd lib e i_fileName i_srcpath i_algo i_lev =
     fileCompress lib e i_fileName i_srcpath (currentPath e) i_algo i_lev"

section \<open>The gzip member format, and a reference compressor\<close>

text \<open>The four bytes of a 32-bit field, least significant first (RFC 1952).\<close>

definition le32 :: "quint32 \<Rightarrow> byte list" where
  "le32 w = [ucast w, ucast (drop_bit 8 w), ucast (drop_bit 16 w), ucast (drop_bit 24 w)]"

text \<open>
  The invariant of the reading loop for a source \<open>F\<close> and a destination that starts with
  \<open>H\<close>: the disk is not full, \<open>H\<close> is still what the destination starts with, carrying the
  checksum on over the part not yet read gives the checksum of \<open>F\<close>, and
  \<^verbatim>\<open>infile_remaining\<close> counts the part not yet read.
\<close>

definition gz_inv :: "byte list \<Rightarrow> byte list \<Rightarrow> 's gz_state \<Rightarrow> bool" where
  "gz_inv H F s =
     (left (fout s) = None \<and> take (length H) (bytes (fout s)) = H
      \<and> mz_crc32 (crc s) (Some (fin s)) = mz_crc32 0 (Some F)
      \<and> infile_remaining s = int (length (fin s)))"

text \<open>The ten bytes of the header for a modification time, as the code writes them.\<close>

definition gzip_header :: "env \<Rightarrow> quint32 \<Rightarrow> byte list" where
  "gzip_header e m = [0x1F, 0x8B, 8, 0] @ le32 m @ [0, if WIN32 e then 0 else 3]"

text \<open>
  The spec's "standard-conformant decoder" of a gzip file with no optional header field,
  over any decoder \<open>inflate\<close> of the DEFLATE payload: it accepts the data only when the
  trailer's CRC32 and ISIZE are those of the data.
\<close>

definition gunzip :: "(byte list \<Rightarrow> byte list option) \<Rightarrow> byte list \<Rightarrow> byte list option" where
  "gunzip inflate member =
     (if length member < 18 then None
      else if take 4 member \<noteq> [0x1F, 0x8B, 8, 0] then None
      else
        (case inflate (take (length member - 18) (drop 10 member)) of
           None \<Rightarrow> None
         | Some d \<Rightarrow>
             if take 4 (drop (length member - 8) member) = le32 (mz_crc32 0 (Some d))
                \<and> drop (length member - 4) member = le32 (word_of_nat (length d))
             then Some d else None))"

text \<open>
  A small DEFLATE implementation to run the code with: it emits the input as stored
  blocks (RFC 1951, section 3.2.4) of at most 65535 bytes and closes the stream with an
  empty final block. Its state is the output not yet handed over and whether the final
  block has been queued.
\<close>

definition stored_block :: "byte \<Rightarrow> byte list \<Rightarrow> byte list" where
  "stored_block bfinal xs =
     (let len = length xs
      in [bfinal, word_of_nat (len mod 256), word_of_nat (len div 256),
          word_of_nat (255 - len mod 256), word_of_nat (255 - len div 256)] @ xs)"

function stored_blocks :: "byte list \<Rightarrow> byte list" where
  "stored_blocks [] = []"
| "stored_blocks (x # xs) =
     stored_block 0 (take 65535 (x # xs)) @ stored_blocks (drop 65535 (x # xs))"
  by pat_completeness auto
termination
  by (relation "measure length") auto

fun stored_deflate ::
  "byte list \<times> bool \<Rightarrow> byte list \<Rightarrow> nat \<Rightarrow> flush
     \<Rightarrow> int \<times> nat \<times> byte list \<times> (byte list \<times> bool)" where
  "stored_deflate (pending, finished) input avail_out fl =
     (let pending = pending @ stored_blocks input
                      @ (if fl = Z_FINISH \<and> \<not> finished then stored_block 1 [] else []);
          finished = (finished \<or> fl = Z_FINISH);
          rest = drop avail_out pending
      in (if fl = Z_FINISH \<and> rest = [] then Z_STREAM_END else Z_OK,
          length input, take avail_out pending, (rest, finished)))"

function (sequential) stored_inflate :: "byte list \<Rightarrow> byte list option" where
  "stored_inflate (b # l0 # l1 # n0 # n1 # rest) =
     (let len = unat l0 + 256 * unat l1
      in if (b = 0 \<or> b = 1) \<and> unat n0 = 255 - unat l0 \<and> unat n1 = 255 - unat l1
            \<and> len \<le> length rest
         then if b = 1
              then (if drop len rest = [] then Some (take len rest) else None)
              else (case stored_inflate (drop len rest) of
                      None \<Rightarrow> None
                    | Some d \<Rightarrow> Some (take len rest @ d))
         else None)"
| "stored_inflate _ = None"
  by pat_completeness auto
termination
  by (relation "measure length") auto

text \<open>The library with that compressor, whose archive calls all succeed on an empty archive.\<close>

definition stored_lib :: "(byte list \<times> bool) miniz" where
  "stored_lib =
     \<lparr>deflateInit2 = (\<lambda>level. (Z_OK, ([], False))),
      deflate = stored_deflate,
      deflateEnd = (\<lambda>s. Z_OK),
      mz_zip_writer_init_file = (\<lambda>p. True),
      mz_zip_writer_add_file = (\<lambda>a s c l. True),
      mz_zip_writer_finalize_archive = True,
      mz_zip_writer_end = True,
      mz_zip_reader_init_file = (\<lambda>p. True),
      mz_zip_reader_get_num_files = 0,
      mz_zip_reader_file_stat = (\<lambda>i. None),
      mz_zip_reader_is_file_a_directory = (\<lambda>i. False),
      mz_zip_reader_extract_to_file = (\<lambda>i p. True)\<rparr>"

text \<open>
  A 64-bit Linux machine whose only file is \<open>content\<close> at \<^verbatim>\<open>src/a.txt\<close>, last modified
  1500000000.999 seconds after the epoch; every open succeeds and the disk is never full.
\<close>

definition linux :: "byte list \<Rightarrow> env" where
  "linux content =
     \<lparr>WIN32 = False, LONG_MAX = 2 ^ 63 - 1, currentPath = ''/tmp'',
      files = (\<lambda>p. if p = ''src/a.txt'' then Some content else None),
      lastModified = (\<lambda>p. 1500000000999), open_ReadOnly = (\<lambda>p. True),
      open_WriteOnly = (\<lambda>p. True), room = (\<lambda>p. None)\<rparr>"

section \<open>Writing to a device that is not full\<close>

lemma qwrite_unbounded:
  "left f = None \<Longrightarrow> qwrite f bs = (int (length bs), \<lparr>bytes = bytes f @ bs, left = None\<rparr>)"
  by (simp add: qwrite_def)

lemma ucast_mask8: "(ucast ((w :: quint32) AND mask 8) :: byte) = ucast w"
  by (rule bit_word_eqI) (auto simp: bit_simps)

lemma ucast_low_byte: "(ucast ((w :: quint32) AND 0xFF) :: byte) = ucast w"
  using ucast_mask8 [of w] by (simp add: mask_eq_exp_minus_1)

lemma getByte_le:
  "getByte w 0 = ucast w" "getByte w 1 = ucast (drop_bit 8 w)"
  "getByte w 2 = ucast (drop_bit 16 w)" "getByte w 3 = ucast (drop_bit 24 w)"
  by (simp_all add: getByte_def ucast_low_byte)

lemma writeGzipHeader_unbounded:
  assumes "left f = None"
  shows "writeGzipHeader e f m =
           (0, \<lparr>bytes = bytes f @ gzip_header e m, left = None\<rparr>)"
  using assms by (simp add: writeGzipHeader_def qwrite_unbounded getByte_le le32_def gzip_header_def)

lemma writeGzipFooter_unbounded:
  assumes "left f = None"
  shows "writeGzipFooter f c n = (0, \<lparr>bytes = bytes f @ le32 c @ le32 n, left = None\<rparr>)"
  using assms by (simp add: writeGzipFooter_def qwrite_unbounded getByte_le le32_def)

section \<open>The reading loop keeps its invariant\<close>

lemma mz_crc32_append:
  "mz_crc32 (mz_crc32 c (Some xs)) (Some ys) = mz_crc32 c (Some (xs @ ys))"
  by (simp add: mz_crc32.simps)

lemma mz_crc32_Nil: "mz_crc32 c (Some []) = c"
  by (simp add: mz_crc32.simps)

lemma gz_loop_last_aux:
  assumes "gz_loop lib s = Some r"
  shows "(\<forall>s s'. I s \<longrightarrow> gz_body lib s = (Continue, s') \<longrightarrow> I s') \<longrightarrow> I s
           \<longrightarrow> (\<exists>s0. I s0 \<and> gz_body lib s0 = r \<and> fst r \<noteq> Continue)"
proof (rule gz_loop.raw_induct
    [where P = "\<lambda>lib s r. (\<forall>s s'. I s \<longrightarrow> gz_body lib s = (Continue, s') \<longrightarrow> I s') \<longrightarrow> I s
           \<longrightarrow> (\<exists>s0. I s0 \<and> gz_body lib s0 = r \<and> fst r \<noteq> Continue)", OF _ assms], goal_cases)
  case (1 gz_loop lib s r)
  show ?case
  proof (intro impI)
    assume step: "\<forall>s s'. I s \<longrightarrow> gz_body lib s = (Continue, s') \<longrightarrow> I s'" and I: "I s"
    show "\<exists>s0. I s0 \<and> gz_body lib s0 = r \<and> fst r \<noteq> Continue"
    proof (cases "fst (gz_body lib s) = Continue")
      case True
      then have b: "gz_body lib s = (Continue, snd (gz_body lib s))"
        by (metis prod.collapse)
      from 1(2) True have "gz_loop lib (snd (gz_body lib s)) = Some r"
        by (simp add: Let_def)
      moreover have "I (snd (gz_body lib s))"
        using step I b by blast
      ultimately show ?thesis
        using 1(1) step by blast
    next
      case False
      with 1(2) I show ?thesis by (auto simp: Let_def)
    qed
  qed
qed

lemma gz_loop_last:
  assumes "gz_loop lib s = Some r" and "I s"
    and step: "\<And>s s'. I s \<Longrightarrow> gz_body lib s = (Continue, s') \<Longrightarrow> I s'"
  shows "\<exists>s0. I s0 \<and> gz_body lib s0 = r \<and> fst r \<noteq> Continue"
  using gz_loop_last_aux [OF assms(1), of I] assms(2) step by blast

lemma read_input_inv:
  assumes "gz_inv H F s" "read_input s = Some s1"
  shows "gz_inv H F s1 \<and> stream s1 = stream s \<and> s_outbuf s1 = s_outbuf s"
proof (cases "next_in s = []")
  case False
  with assms show ?thesis by (simp add: read_input_def)
next
  case True
  define n where "n = nat (min BUF_SIZE (infile_remaining s) mod 2 ^ 32)"
  have rem: "infile_remaining s = int (length (fin s))"
    using assms(1) by (simp add: gz_inv_def)
  define m where "m = min BUF_SIZE (int (length (fin s)))"
  have m: "0 \<le> m" "m < 2 ^ 32" "m \<le> int (length (fin s))"
    by (simp_all add: m_def BUF_SIZE_def)
  then have "m mod 2 ^ 32 = m"
    by simp
  then have "n = nat m"
    by (simp add: n_def rem m_def)
  with m(3) have "n \<le> length (fin s)"
    by linarith
  then have len: "length (take n (fin s)) = n"
    by simp
  have s1: "s1 = s\<lparr>crc := mz_crc32 (crc s) (Some (take n (fin s))), next_in := take n (fin s),
                    fin := drop n (fin s), infile_remaining := infile_remaining s - int n\<rparr>"
    using assms(2) True len unfolding read_input_def n_def [symmetric] Let_def
    by (simp split: if_splits)
  have "mz_crc32 (mz_crc32 (crc s) (Some (take n (fin s)))) (Some (drop n (fin s)))
          = mz_crc32 (crc s) (Some (take n (fin s) @ drop n (fin s)))"
    by (rule mz_crc32_append)
  then have "mz_crc32 (crc s1) (Some (fin s1)) = mz_crc32 (crc s) (Some (fin s))"
    by (simp add: s1)
  then have c: "mz_crc32 (crc s1) (Some (fin s1)) = mz_crc32 0 (Some F)"
    using assms(1) by (simp only: gz_inv_def)
  have r: "infile_remaining s1 = int (length (fin s1))"
    using \<open>n \<le> length (fin s)\<close> by (simp add: s1 rem)
  have f: "fout s1 = fout s" "stream s1 = stream s" "s_outbuf s1 = s_outbuf s"
    by (simp_all add: s1)
  have "left (fout s) = None" "take (length H) (bytes (fout s)) = H"
    using assms(1) by (simp_all only: gz_inv_def)
  with c r f show ?thesis
    by (simp only: gz_inv_def simp_thms)
qed

lemma take_prefix_append:
  assumes "take (length H) bs = H"
  shows "take (length H) (bs @ xs) = H"
proof -
  have "length (take (length H) bs) = length H"
    using assms by simp
  then have "length H \<le> length bs"
    by simp
  then show ?thesis
    using assms by simp
qed

lemma call_deflate_inv:
  assumes "gz_inv H F s" "call_deflate lib s = (status, s2)"
  shows "gz_inv H F s2 \<and> fin s2 = fin s"
proof -
  obtain st consumed produced strm where
    "deflate lib (stream s) (next_in s) (nat (BUF_SIZE - int (length (s_outbuf s))))
       (if infile_remaining s \<noteq> 0 then Z_NO_FLUSH else Z_FINISH) = (st, consumed, produced, strm)"
    using prod_cases4 by blast
  with assms(2) have "s2 = s\<lparr>stream := strm, next_in := drop consumed (next_in s),
      s_outbuf := s_outbuf s @ take (nat (BUF_SIZE - int (length (s_outbuf s)))) produced\<rparr>"
    by (simp add: call_deflate_def Let_def)
  with assms(1) show ?thesis
    by (simp add: gz_inv_def)
qed

lemma write_output_inv:
  assumes "gz_inv H F s" "write_output status s = (ok, s3)"
  shows "gz_inv H F s3 \<and> fin s3 = fin s"
proof (cases "status = Z_STREAM_END \<or> int (length (s_outbuf s)) = BUF_SIZE")
  case False
  with assms show ?thesis by (simp add: write_output_def)
next
  case True
  have l: "left (fout s) = None"
    using assms(1) by (simp add: gz_inv_def)
  have "s3 = s\<lparr>fout := \<lparr>bytes = bytes (fout s) @ s_outbuf s, left = None\<rparr>, s_outbuf := []\<rparr>"
    using assms(2) True by (simp add: write_output_def Let_def qwrite_unbounded [OF l])
  with assms(1) show ?thesis
    by (simp add: gz_inv_def take_prefix_append del: take_append)
qed

lemma gz_body_elim:
  assumes "gz_body lib s = (c, s')"
  obtains (short_read) "read_input s = None" "c = Return E_MINIZ_ERROR"
  | (called) s1 status s2 ok where "read_input s = Some s1"
      "call_deflate lib s1 = (status, s2)" "write_output status s2 = (ok, s')"
      "c = (if \<not> ok then Return E_MINIZ_ERROR else if status = Z_STREAM_END then Break
            else if status \<noteq> Z_OK then Return E_MINIZ_ERROR else Continue)"
proof (cases "read_input s")
  case None
  with assms have "c = Return E_MINIZ_ERROR" by (simp add: gz_body_def)
  with None show ?thesis by (rule short_read)
next
  case (Some s1)
  obtain status s2 where d: "call_deflate lib s1 = (status, s2)"
    by (cases "call_deflate lib s1")
  obtain ok s3 where w: "write_output status s2 = (ok, s3)"
    by (cases "write_output status s2")
  have "s' = s3 \<and> c = (if \<not> ok then Return E_MINIZ_ERROR else if status = Z_STREAM_END then Break
            else if status \<noteq> Z_OK then Return E_MINIZ_ERROR else Continue)"
    using assms Some d w by (simp add: gz_body_def split: if_splits)
  with Some d w show ?thesis
    using called by blast
qed

lemma gz_body_inv:
  assumes "gz_inv H F s" "gz_body lib s = (c, s')"
  shows "gz_inv H F s'"
  using assms(2)
proof (cases rule: gz_body_elim)
  case short_read
  then show ?thesis
    using assms by (simp add: gz_body_def)
next
  case (called s1 status s2 ok)
  then show ?thesis
    using read_input_inv [OF assms(1) called(1)] call_deflate_inv [OF _ called(2)]
      write_output_inv [OF _ called(3)] by blast
qed

lemma gz_body_Return:
  assumes "gz_body lib s = (Return r, s')"
  shows "r = E_MINIZ_ERROR"
  using assms by (cases rule: gz_body_elim) (simp_all split: if_splits)

lemma gz_body_Break:
  assumes "gz_inv H F s" "gz_body lib s = (Break, s')"
    and "\<forall>st input avail_out. fst (deflate lib st input avail_out Z_NO_FLUSH) \<noteq> Z_STREAM_END"
  shows "crc s' = mz_crc32 0 (Some F)"
  using assms(2)
proof (cases rule: gz_body_elim)
  case short_read
  then show ?thesis by simp
next
  case (called s1 status s2 ok)
  have e: "status = Z_STREAM_END"
    using called(4) by (simp split: if_splits)
  have i1: "gz_inv H F s1"
    using read_input_inv [OF assms(1) called(1)] by simp
  have "infile_remaining s1 = 0"
  proof (rule ccontr)
    assume "infile_remaining s1 \<noteq> 0"
    with called(2) have "fst (deflate lib (stream s1) (next_in s1)
                   (nat (BUF_SIZE - int (length (s_outbuf s1)))) Z_NO_FLUSH) = status"
      by (auto simp: call_deflate_def Let_def split: prod.splits)
    moreover have "fst (deflate lib (stream s1) (next_in s1)
                   (nat (BUF_SIZE - int (length (s_outbuf s1)))) Z_NO_FLUSH) \<noteq> Z_STREAM_END"
      using assms(3) by blast
    ultimately show False
      using e by simp
  qed
  with i1 have "fin s1 = []"
    by (simp add: gz_inv_def)
  moreover have "fin s' = fin s1 \<and> gz_inv H F s'"
  proof -
    have a: "gz_inv H F s2" "fin s2 = fin s1"
      using call_deflate_inv [OF i1 called(2)] by simp_all
    show ?thesis
      using write_output_inv [OF a(1) called(3)] a(2) by simp
  qed
  ultimately have "mz_crc32 (crc s') (Some []) = mz_crc32 0 (Some F)"
    unfolding gz_inv_def by auto
  then show ?thesis
    by (simp only: mz_crc32_Nil)
qed

section \<open>File names\<close>

text \<open>
  C8: for every name, the compressed name for gzip is the name followed by \<^verbatim>\<open>.gz\<close>; for
  zip it is the name with every backslash, slash and colon replaced by an underscore,
  followed by \<^verbatim>\<open>.zip\<close>; for no compression it is the name. The two examples of the spec
  come out as it says.
\<close>

theorem getCompressedFilename_spec:
  "getCompressedFilename name GZIP_ARCHIVE = name @ ''.gz''
   \<and> getCompressedFilename name ZIP_ARCHIVE =
       map (\<lambda>c. if c = CHR 0x5C \<or> c = CHR ''/'' \<or> c = CHR '':'' then CHR ''_'' else c) name
         @ ''.zip''
   \<and> getCompressedFilename name NO_COMPRESSION = name
   \<and> getCompressedFilename ''a/b:c'' ZIP_ARCHIVE = ''a_b_c.zip''
   \<and> getCompressedFilename ''report.txt'' GZIP_ARCHIVE = ''report.txt.gz''"
  by (simp add: GZIP_EXT_def ZIP_EXT_def calculateNameCompliantWithZipAlgoMiniZ_def
      QString_replace_def)

section \<open>The dispatch of \<^verbatim>\<open>fileCompress\<close>\<close>

lemma sanitize_map:
  "calculateNameCompliantWithZipAlgoMiniZ name =
     map (\<lambda>c. if c = CHR 0x5C \<or> c = CHR ''/'' \<or> c = CHR '':'' then CHR ''_'' else c) name"
  by (simp add: calculateNameCompliantWithZipAlgoMiniZ_def QString_replace_def)

text \<open>
  C10: for every call, \<^verbatim>\<open>fileCompress\<close> with \<^verbatim>\<open>NO_COMPRESSION\<close> does what it does with
  \<^verbatim>\<open>ZIP_ARCHIVE\<close>: it runs \<^verbatim>\<open>compressZipFile\<close> on the same arguments and is not a
  pass-through. When the source exists it opens an archive at the destination directory
  under the sanitized name followed by \<^verbatim>\<open>.zip\<close>, adds the source to it, finalizes and
  closes it, going on as long as each call succeeds, and returns 0 when all four have
  succeeded. The last part is such a run on the reference machine.
\<close>

theorem fileCompress_no_compression_is_zip:
  "fileCompress lib e i_fileName i_srcpath i_dstpath NO_COMPRESSION i_lev
     = fileCompress lib e i_fileName i_srcpath i_dstpath ZIP_ARCHIVE i_lev
   \<and> fileCompress lib e i_fileName i_srcpath i_dstpath NO_COMPRESSION i_lev
     = Some (compressZipFile lib e i_fileName i_srcpath i_dstpath i_lev)
   \<and> fileCompress lib e i_fileName i_srcpath i_dstpath NO_COMPRESSION i_lev
     = (let name = map (\<lambda>c. if c = CHR 0x5C \<or> c = CHR ''/'' \<or> c = CHR '':'' then CHR ''_''
                            else c) i_fileName @ ''.zip'';
            dst = calculateFilenameWithPath e i_dstpath name;
            src = calculateFilenameWithPath e i_srcpath i_fileName;
            opened = mz_zip_writer_init_file lib dst;
            added = mz_zip_writer_add_file lib name src s_pComment i_lev;
            finalized = mz_zip_writer_finalize_archive lib;
            closed = mz_zip_writer_end lib;
            calls = [Writer_init_file dst opened, Writer_add_file name src s_pComment i_lev added,
                     Writer_finalize_archive finalized, Writer_end closed]
        in Some \<lparr>rc = (if files e src = None then E_FILE_NOT_OPEN
                         else if opened \<and> added \<and> finalized \<and> closed then 0
                         else EXIT_FAILURE),
                   written = None,
                   zip_calls = (if files e src = None then []
                                else if \<not> opened then take 1 calls
                                else if \<not> added then take 2 calls
                                else if \<not> finalized then take 3 calls
                                else calls)\<rparr>)
   \<and> fileCompress stored_lib (linux [0x41]) ''a.txt'' ''src'' ''dst'' NO_COMPRESSION 6
     = Some \<lparr>rc = 0, written = None,
             zip_calls = [Writer_init_file ''dst/a.txt.zip'' True,
                          Writer_add_file ''a.txt.zip'' ''src/a.txt'' s_pComment 6 True,
                          Writer_finalize_archive True, Writer_end True]\<rparr>"
proof -
  have a: "fileCompress lib e i_fileName i_srcpath i_dstpath NO_COMPRESSION i_lev
     = Some (compressZipFile lib e i_fileName i_srcpath i_dstpath i_lev)" for lib :: "'s miniz"
    and e i_fileName i_srcpath i_dstpath i_lev
    by (simp add: fileCompress_def)
  have b: "fileCompress lib e i_fileName i_srcpath i_dstpath ZIP_ARCHIVE i_lev
     = Some (compressZipFile lib e i_fileName i_srcpath i_dstpath i_lev)"
    by (simp add: fileCompress_def)
  have c: "compressZipFile stored_lib (linux [0x41]) ''a.txt'' ''src'' ''dst'' 6
     = \<lparr>rc = 0, written = None,
             zip_calls = [Writer_init_file ''dst/a.txt.zip'' True,
                          Writer_add_file ''a.txt.zip'' ''src/a.txt'' s_pComment 6 True,
                          Writer_finalize_archive True, Writer_end True]\<rparr>"
    by (simp add: compressZipFile_def sanitize_map ZIP_EXT_def calculateFilenameWithPath_def
        fromNativeSeparators_def endsWith_slash_def linux_def stored_lib_def Let_def)
  show ?thesis
    unfolding a b c
    by (simp add: compressZipFile_def sanitize_map ZIP_EXT_def Let_def)
qed

section \<open>Joining a directory and a name\<close>

lemma strip_trailing_decomp:
  "s = strip_slashes s @ replicate (trailing_slashes s) (CHR ''/'')"
proof -
  have "rev s = takeWhile (\<lambda>c. c = CHR ''/'') (rev s) @ dropWhile (\<lambda>c. c = CHR ''/'') (rev s)"
    by simp
  moreover have "takeWhile (\<lambda>c. c = CHR ''/'') (rev s)
                   = replicate (trailing_slashes s) (CHR ''/'')"
    unfolding trailing_slashes_def
    by (rule replicate_length_same [symmetric]) (auto dest: set_takeWhileD)
  ultimately have "rev (rev s) = rev (replicate (trailing_slashes s) (CHR ''/'')
                     @ dropWhile (\<lambda>c. c = CHR ''/'') (rev s))"
    by simp
  then show ?thesis
    by (simp add: strip_slashes_def)
qed

lemma endsWith_slash_iff: "endsWith_slash s \<longleftrightarrow> 0 < trailing_slashes s"
  by (cases "rev s") (simp_all add: endsWith_slash_def trailing_slashes_def)

text \<open>
  C9, as the code has it: the result is the normalized directory without its trailing
  slashes, then as many slashes as it ended with, or one when it ended with none, then
  the name. The directory part ends with exactly one slash only when the normalized
  directory ended with at most one.
\<close>

theorem calculateFilenameWithPath_separators:
  "calculateFilenameWithPath e dir name =
     strip_slashes (fromNativeSeparators e dir)
       @ replicate (max 1 (trailing_slashes (fromNativeSeparators e dir))) (CHR ''/'') @ name"
proof -
  define d where "d = fromNativeSeparators e dir"
  show ?thesis
  proof (cases "endsWith_slash d")
    case True
    then have "max 1 (trailing_slashes d) = trailing_slashes d"
      by (simp add: endsWith_slash_iff)
    with True strip_trailing_decomp [of d] show ?thesis
      by (simp add: calculateFilenameWithPath_def d_def [symmetric])
  next
    case False
    then have "trailing_slashes d = 0"
      by (simp add: endsWith_slash_iff)
    with False strip_trailing_decomp [of d] show ?thesis
      by (simp add: calculateFilenameWithPath_def d_def [symmetric])
  qed
qed

text \<open>
  C9 as stated fails: a directory that ends with two slashes keeps both, where the spec's
  \<open>joinPath\<close> would leave exactly one.
\<close>

theorem calculateFilenameWithPath_keeps_double_separator:
  "calculateFilenameWithPath (linux []) ''a//'' ''f'' = ''a//f''
   \<and> joinPath_spec (linux []) ''a//'' ''f'' = ''a/f''"
  by (simp add: calculateFilenameWithPath_def joinPath_spec_def fromNativeSeparators_def
      endsWith_slash_def strip_slashes_def linux_def)

section \<open>What a run of \<^verbatim>\<open>compressGzipFile\<close> leaves behind\<close>

lemma gz_loop_result:
  assumes "gz_loop lib s = Some (ctl, s')" "gz_inv H F s"
  shows "gz_inv H F s'" "ctl \<noteq> Continue" "ctl = Return r \<Longrightarrow> r = E_MINIZ_ERROR"
    "\<forall>st input avail_out. fst (deflate lib st input avail_out Z_NO_FLUSH) \<noteq> Z_STREAM_END
       \<Longrightarrow> ctl = Break \<Longrightarrow> crc s' = mz_crc32 0 (Some F)"
proof -
  obtain s0 where s0: "gz_inv H F s0" "gz_body lib s0 = (ctl, s')" "ctl \<noteq> Continue"
    using gz_loop_last [OF assms(1), of "gz_inv H F"] assms(2) gz_body_inv by fastforce
  show "gz_inv H F s'"
    using gz_body_inv [OF s0(1,2)] .
  show "ctl \<noteq> Continue"
    by (rule s0(3))
  show "ctl = Return r \<Longrightarrow> r = E_MINIZ_ERROR"
    using s0(2) gz_body_Return by blast
  show "\<forall>st input avail_out. fst (deflate lib st input avail_out Z_NO_FLUSH) \<noteq> Z_STREAM_END
       \<Longrightarrow> ctl = Break \<Longrightarrow> crc s' = mz_crc32 0 (Some F)"
    using gz_body_Break [OF s0(1)] s0(2) by blast
qed

lemma compressGzipFile_opened:
  assumes "files e (calculateFilenameWithPath e sp fn) = Some F"
    and "open_ReadOnly e (calculateFilenameWithPath e sp fn)"
    and "open_WriteOnly e (calculateFilenameWithPath e dp (fn @ ''.gz''))"
    and "room e (calculateFilenameWithPath e dp (fn @ ''.gz'')) = None"
    and "deflateInit2 lib lev = (st, strm)"
  shows "compressGzipFile lib e fn sp dp lev =
    (if st \<noteq> Z_OK
     then Some (gz_outcome E_MINIZ_ERROR (calculateFilenameWithPath e dp (fn @ ''.gz''))
        \<lparr>bytes = gzip_header e (word_of_int (cdiv (lastModified e (calculateFilenameWithPath e sp fn)) 1000)),
         left = None\<rparr>)
     else
       (case gz_loop lib
               \<lparr>stream = strm, next_in = [], s_outbuf = [], fin = F,
                infile_remaining = int (length F), crc = 0,
                fout = \<lparr>bytes = gzip_header e (word_of_int (cdiv (lastModified e (calculateFilenameWithPath e sp fn)) 1000)),
                        left = None\<rparr>\<rparr> of
          None \<Rightarrow> None
        | Some (ctl, s) \<Rightarrow>
            (case ctl of
               Return r \<Rightarrow> Some (gz_outcome r (calculateFilenameWithPath e dp (fn @ ''.gz'')) (fout s))
             | _ \<Rightarrow>
                 if deflateEnd lib (stream s) \<noteq> Z_OK
                 then Some (gz_outcome E_MINIZ_ERROR (calculateFilenameWithPath e dp (fn @ ''.gz'')) (fout s))
                 else Some (gz_outcome Z_OK (calculateFilenameWithPath e dp (fn @ ''.gz''))
                        (snd (writeGzipFooter (fout s) (crc s)
                               (word_of_int (int (length F) AND (LONG_MAX e - 1)))))))))"
  using assms unfolding compressGzipFile_def Let_def getCompressedFilename.simps GZIP_EXT_def
  by (simp add: writeGzipHeader_unbounded mz_crc32.simps MZ_CRC32_INIT_def)

lemma gz_inv_init:
  "gz_inv H F \<lparr>stream = strm, next_in = [], s_outbuf = [], fin = F,
                infile_remaining = int (length F), crc = 0,
                fout = \<lparr>bytes = H, left = None\<rparr>\<rparr>"
  by (simp add: gz_inv_def)

lemma compressGzipFile_not_opened:
  assumes "files e (calculateFilenameWithPath e sp fn) = Some F"
    and "\<not> (open_ReadOnly e (calculateFilenameWithPath e sp fn)
            \<and> open_WriteOnly e (calculateFilenameWithPath e dp (fn @ ''.gz'')))"
  shows "rc (the (compressGzipFile lib e fn sp dp lev)) = E_FILE_NOT_OPEN"
  using assms unfolding compressGzipFile_def Let_def getCompressedFilename.simps GZIP_EXT_def
  by simp

lemma compressGzipFile_outcome:
  fixes lib :: "'s miniz"
  assumes "compressGzipFile lib e fn sp dp lev = Some out" and "rc out \<noteq> E_FILE_NOT_OPEN"
    and "files e (calculateFilenameWithPath e sp fn) = Some F"
    and "room e (calculateFilenameWithPath e dp (fn @ ''.gz'')) = None"
  defines "dst \<equiv> calculateFilenameWithPath e dp (fn @ ''.gz'')"
    and "H \<equiv> gzip_header e
                  (word_of_int (cdiv (lastModified e (calculateFilenameWithPath e sp fn)) 1000))"
  obtains (early) "out = gz_outcome E_MINIZ_ERROR dst \<lparr>bytes = H, left = None\<rparr>"
  | (failed) s :: "'s gz_state" where "gz_inv H F s" "out = gz_outcome E_MINIZ_ERROR dst (fout s)"
  | (completed) s :: "'s gz_state" where "gz_inv H F s" "out = gz_outcome Z_OK dst
        (snd (writeGzipFooter (fout s) (crc s) (word_of_int (int (length F) AND (LONG_MAX e - 1)))))"
      "(\<forall>st input avail_out. fst (deflate lib st input avail_out Z_NO_FLUSH) \<noteq> Z_STREAM_END)
         \<longrightarrow> crc s = mz_crc32 0 (Some F)"
proof -
  have opened: "open_ReadOnly e (calculateFilenameWithPath e sp fn)"
    "open_WriteOnly e (calculateFilenameWithPath e dp (fn @ ''.gz''))"
    using compressGzipFile_not_opened [OF assms(3), of dp lib lev] assms(1,2) by auto
  obtain st strm where init: "deflateInit2 lib lev = (st, strm)"
    by (cases "deflateInit2 lib lev")
  note u = compressGzipFile_opened [OF assms(3) opened assms(4) init, folded dst_def H_def]
  show thesis
  proof (cases "st = Z_OK")
    case False
    with u assms(1) have "out = gz_outcome E_MINIZ_ERROR dst \<lparr>bytes = H, left = None\<rparr>"
      by simp
    then show thesis by (rule early)
  next
    case True
    define s0 where "s0 = \<lparr>stream = strm, next_in = [], s_outbuf = [], fin = F,
                infile_remaining = int (length F), crc = 0,
                fout = \<lparr>bytes = H, left = None\<rparr>\<rparr>"
    have i0: "gz_inv H F s0"
      unfolding s0_def by (rule gz_inv_init)
    note u' = u [folded s0_def]
    have "gz_loop lib s0 \<noteq> None"
    proof
      assume "gz_loop lib s0 = None"
      with u' True have "compressGzipFile lib e fn sp dp lev = None"
        by simp
      with assms(1) show False by simp
    qed
    then obtain ctl s where loop: "gz_loop lib s0 = Some (ctl, s)"
      by auto
    note r = gz_loop_result [OF loop i0]
    have o: "out = (case ctl of
               Return r \<Rightarrow> gz_outcome r dst (fout s)
             | _ \<Rightarrow>
                 if deflateEnd lib (stream s) \<noteq> Z_OK
                 then gz_outcome E_MINIZ_ERROR dst (fout s)
                 else gz_outcome Z_OK dst
                        (snd (writeGzipFooter (fout s) (crc s)
                               (word_of_int (int (length F) AND (LONG_MAX e - 1))))))"
      using u' True assms(1) loop by (cases ctl) (auto split: if_splits)
    show thesis
    proof (cases ctl)
      case Continue
      with r(2) show thesis by simp
    next
      case (Return x)
      with r(3) o have "out = gz_outcome E_MINIZ_ERROR dst (fout s)"
        by simp
      with r(1) show thesis by (rule failed)
    next
      case Break
      show thesis
      proof (cases "deflateEnd lib (stream s) = Z_OK")
        case False
        with Break o have "out = gz_outcome E_MINIZ_ERROR dst (fout s)"
          by simp
        with r(1) show thesis by (rule failed)
      next
        case True
        with Break o have "out = gz_outcome Z_OK dst
          (snd (writeGzipFooter (fout s) (crc s) (word_of_int (int (length F) AND (LONG_MAX e - 1)))))"
          by simp
        moreover have "(\<forall>st input avail_out. fst (deflate lib st input avail_out Z_NO_FLUSH) \<noteq> Z_STREAM_END)
         \<longrightarrow> crc s = mz_crc32 0 (Some F)"
          using r(4) Break by blast
        ultimately show thesis
          using r(1) completed by blast
      qed
    qed
  qed
qed

lemma gz_inv_bytes:
  assumes "gz_inv H F s"
  shows "left (fout s) = None" "bytes (fout s) = H @ drop (length H) (bytes (fout s))"
proof -
  show "left (fout s) = None"
    using assms by (simp add: gz_inv_def)
  have "take (length H) (bytes (fout s)) = H"
    using assms by (simp add: gz_inv_def)
  then show "bytes (fout s) = H @ drop (length H) (bytes (fout s))"
    by (metis append_take_drop_id)
qed

lemma compressGzipFile_success:
  assumes "compressGzipFile lib e fn sp dp lev = Some out" and "rc out = 0"
    and "files e (calculateFilenameWithPath e sp fn) = Some F"
    and "room e (calculateFilenameWithPath e dp (fn @ ''.gz'')) = None"
  shows "\<exists>payload c.
           written out = Some (calculateFilenameWithPath e dp (fn @ ''.gz''),
             gzip_header e (word_of_int (cdiv (lastModified e (calculateFilenameWithPath e sp fn)) 1000))
               @ payload @ le32 c @ le32 (word_of_int (int (length F) AND (LONG_MAX e - 1))))
           \<and> ((\<forall>st input avail_out. fst (deflate lib st input avail_out Z_NO_FLUSH) \<noteq> Z_STREAM_END)
                \<longrightarrow> c = mz_crc32 0 (Some F))"
proof -
  have "rc out \<noteq> E_FILE_NOT_OPEN"
    using assms(2) by (simp add: E_FILE_NOT_OPEN_def)
  then show ?thesis
  proof (rule compressGzipFile_outcome [OF assms(1) _ assms(3,4)], goal_cases)
    case 1
    with assms(2) show ?case by (simp add: gz_outcome_def E_MINIZ_ERROR_def)
  next
    case (2 s)
    with assms(2) show ?case by (simp add: gz_outcome_def E_MINIZ_ERROR_def)
  next
    case completed: (3 s)
    note b = gz_inv_bytes [OF completed(1)]
    have "bytes (snd (writeGzipFooter (fout s) (crc s)
                    (word_of_int (int (length F) AND (LONG_MAX e - 1)))))
            = bytes (fout s) @ le32 (crc s) @ le32 (word_of_int (int (length F) AND (LONG_MAX e - 1)))"
      by (simp add: writeGzipFooter_unbounded [OF b(1)])
    with b(2) have "\<exists>payload. written out = Some (calculateFilenameWithPath e dp (fn @ ''.gz''),
             gzip_header e (word_of_int (cdiv (lastModified e (calculateFilenameWithPath e sp fn)) 1000))
               @ payload @ le32 (crc s)
               @ le32 (word_of_int (int (length F) AND (LONG_MAX e - 1))))"
      by (simp add: completed(2) gz_outcome_def) (metis append.assoc)
    with completed(3) show ?case by blast
  qed
qed

lemma compressGzipFile_header_first:
  assumes "compressGzipFile lib e fn sp dp lev = Some out" and "rc out \<noteq> E_FILE_NOT_OPEN"
    and "files e (calculateFilenameWithPath e sp fn) = Some F"
    and "room e (calculateFilenameWithPath e dp (fn @ ''.gz'')) = None"
  shows "\<exists>rest. written out = Some (calculateFilenameWithPath e dp (fn @ ''.gz''),
             gzip_header e (word_of_int (cdiv (lastModified e (calculateFilenameWithPath e sp fn)) 1000))
               @ rest)"
proof (rule compressGzipFile_outcome [OF assms], goal_cases)
  case 1
  then show ?case by (simp add: gz_outcome_def)
next
  case failed: (2 s)
  with gz_inv_bytes(2) [OF failed(1)] show ?case
    by (simp add: gz_outcome_def) metis
next
  case completed: (3 s)
  note b = gz_inv_bytes [OF completed(1)]
  have "bytes (snd (writeGzipFooter (fout s) (crc s) (word_of_int (int (length F) AND (LONG_MAX e - 1)))))
        = bytes (fout s) @ le32 (crc s) @ le32 (word_of_int (int (length F) AND (LONG_MAX e - 1)))"
    by (simp add: writeGzipFooter_unbounded [OF b(1)])
  with b(2) show ?case
    by (simp add: completed(2) gz_outcome_def) (metis append.assoc)
qed

section \<open>Runs with the reference compressor\<close>

lemmas run_defs = gz_body_def read_input_def call_deflate_def write_output_def qwrite_def
  writeGzipHeader_def writeGzipFooter_def getByte_def compressGzipFile_def gz_outcome_def
  calculateFilenameWithPath_def fromNativeSeparators_def endsWith_slash_def GZIP_EXT_def
  linux_def stored_lib_def stored_block_def Z_OK_def Z_STREAM_END_def BUF_SIZE_def cdiv_def
  mz_crc32.simps MZ_CRC32_INIT_def crc_byte_def crc_shift_def E_MINIZ_ERROR_def
  E_FILE_NOT_OPEN_def Let_def

lemma run_empty:
  "compressGzipFile stored_lib (linux []) ''a.txt'' ''src'' ''dst'' 6 =
     Some \<lparr>rc = 0,
           written = Some (''dst/a.txt.gz'',
             [31, 139, 8, 0, 0, 47, 104, 89, 0, 3, 1, 0, 0, 255, 255, 0, 0, 0, 0, 0, 0, 0, 0]),
           zip_calls = []\<rparr>"
  by (simp add: run_defs gz_loop.simps)

lemma run_one_byte:
  "compressGzipFile stored_lib (linux [0x41]) ''a.txt'' ''src'' ''dst'' 6 =
     Some \<lparr>rc = 0,
           written = Some (''dst/a.txt.gz'',
             [31, 139, 8, 0, 0, 47, 104, 89, 0, 3, 0, 1, 0, 254, 255, 65, 1, 0, 0, 255, 255,
              139, 158, 217, 211, 0, 0, 0, 0]),
           zip_calls = []\<rparr>"
  by (simp add: run_defs gz_loop.simps)


lemma gunzip_accepts_even_length:
  "gunzip stored_inflate
     [31, 139, 8, 0, 0, 47, 104, 89, 0, 3, 0, 2, 0, 253, 255, 65, 66, 1, 0, 0, 255, 255,
      7, 76, 105, 48, 2, 0, 0, 0] = Some [0x41, 0x42]"
  by (simp add: gunzip_def le32_def mz_crc32.simps crc_byte_def crc_shift_def Let_def)


section \<open>The gzip footer\<close>

lemma footer_fields:
  assumes "length a = 4" "length b = 4"
  shows "take 4 (drop (length (xs @ a @ b) - 8) (xs @ a @ b)) = a"
    and "drop (length (xs @ a @ b) - 4) (xs @ a @ b) = b"
  using assms by simp_all

lemma length_le32: "length (le32 w) = 4"
  by (simp add: le32_def)

lemma length_gzip_header: "length (gzip_header e m) = 10"
  by (simp add: gzip_header_def le32_def)



text \<open>
  C1 fails on a source of one byte: the size field written is 0, where the length modulo
  \<open>2 ^ 32\<close> is 1. The mask \<^verbatim>\<open>LONG_MAX - 1\<close> is even, so it clears bit 0 of every length.
\<close>

theorem gzip_footer_size_clears_low_bit:
  "\<exists>bs. compressGzipFile stored_lib (linux [0x41]) ''a.txt'' ''src'' ''dst'' 6 =
           Some \<lparr>rc = 0, written = Some (''dst/a.txt.gz'', bs), zip_calls = []\<rparr>
        \<and> drop (length bs - 4) bs = [0, 0, 0, 0]
        \<and> le32 (word_of_nat (length [0x41 :: byte] mod 2 ^ 32)) = [1, 0, 0, 0]"
  by (simp add: run_one_byte le32_def)

text \<open>
  C3 fails for gzip on the same source: the trailer says the data has length 0, so no
  decoder that checks the trailer gives the byte back, whatever it does with the payload.
\<close>

theorem gzip_round_trip_fails_on_odd_length:
  "\<exists>gz. fileCompress stored_lib (linux [0x41]) ''a.txt'' ''src'' ''dst'' GZIP_ARCHIVE 6 =
           Some \<lparr>rc = 0, written = Some (''dst/a.txt.gz'', gz), zip_calls = []\<rparr>
        \<and> (\<forall>inflate. gunzip inflate gz \<noteq> Some [0x41])"
proof -
  have "gunzip inflate
          [31, 139, 8, 0, 0, 47, 104, 89, 0, 3, 0, 1, 0, 254, 255, 65, 1, 0, 0, 255, 255,
           139, 158, 217, 211, 0, 0, 0, 0] \<noteq> Some [0x41]" for inflate
    by (auto simp: gunzip_def le32_def split: option.splits)
  then show ?thesis
    by (simp add: fileCompress_def run_one_byte)
qed

section \<open>The empty source\<close>

lemma gz_loop_empty_source:
  assumes "deflate lib strm [] (nat BUF_SIZE) Z_FINISH = (Z_STREAM_END, consumed, produced, strm')"
  shows "gz_loop lib \<lparr>stream = strm, next_in = [], s_outbuf = [], fin = [],
                       infile_remaining = 0, crc = 0, fout = \<lparr>bytes = H, left = None\<rparr>\<rparr>
         = Some (Break, \<lparr>stream = strm', next_in = [], s_outbuf = [], fin = [],
                       infile_remaining = 0, crc = 0,
                       fout = \<lparr>bytes = H @ take (nat BUF_SIZE) produced, left = None\<rparr>\<rparr>)"
proof -
  have "gz_body lib \<lparr>stream = strm, next_in = [], s_outbuf = [], fin = [],
                       infile_remaining = 0, crc = 0, fout = \<lparr>bytes = H, left = None\<rparr>\<rparr>
         = (Break, \<lparr>stream = strm', next_in = [], s_outbuf = [], fin = [],
                       infile_remaining = 0, crc = 0,
                       fout = \<lparr>bytes = H @ take (nat BUF_SIZE) produced, left = None\<rparr>\<rparr>)"
    using assms
    by (simp add: gz_body_def read_input_def call_deflate_def write_output_def qwrite_unbounded
        mz_crc32_Nil Let_def BUF_SIZE_def)
  then show ?thesis
    by (subst gz_loop.simps) simp
qed

text \<open>
  C5, as the code has it: for an empty source, when the compressor ends the stream in its
  first call, the destination holds the 10-byte header, the bytes the compressor produced
  for the empty input, and the 8-byte footer with CRC32 0 and size 0. Its length is 18
  plus the length of those bytes.
\<close>

theorem compressGzipFile_empty_source:
  assumes "files e (calculateFilenameWithPath e i_srcpath i_filename) = Some []"
    and "open_ReadOnly e (calculateFilenameWithPath e i_srcpath i_filename)"
    and "open_WriteOnly e (calculateFilenameWithPath e i_dstpath (i_filename @ ''.gz''))"
    and "room e (calculateFilenameWithPath e i_dstpath (i_filename @ ''.gz'')) = None"
    and "deflateInit2 lib level = (Z_OK, strm)"
    and "deflate lib strm [] (nat BUF_SIZE) Z_FINISH = (Z_STREAM_END, consumed, produced, strm')"
    and "deflateEnd lib strm' = Z_OK"
  shows "\<exists>bs. compressGzipFile lib e i_filename i_srcpath i_dstpath level =
               Some \<lparr>rc = 0,
                     written = Some (calculateFilenameWithPath e i_dstpath (i_filename @ ''.gz''), bs),
                     zip_calls = []\<rparr>
            \<and> bs = gzip_header e (word_of_int
                       (cdiv (lastModified e (calculateFilenameWithPath e i_srcpath i_filename)) 1000))
                     @ take (nat BUF_SIZE) produced @ le32 (mz_crc32 0 None) @ le32 0
            \<and> le32 (mz_crc32 0 None) @ le32 0 = [0, 0, 0, 0, 0, 0, 0, 0]
            \<and> length bs = 18 + min (nat BUF_SIZE) (length produced)"
  using assms(7)
  by (simp add: compressGzipFile_opened [OF assms(1-5)] gz_loop_empty_source [OF assms(6)]
      gz_outcome_def writeGzipFooter_unbounded length_gzip_header le32_def Z_OK_def
      mz_crc32.simps MZ_CRC32_INIT_def)

text \<open>C5 with the reference compressor, whose stream for the empty input has 5 bytes.\<close>

theorem compressGzipFile_empty_source_witness:
  "\<exists>bs. compressGzipFile stored_lib (linux []) ''a.txt'' ''src'' ''dst'' 6 =
               Some \<lparr>rc = 0, written = Some (''dst/a.txt.gz'', bs), zip_calls = []\<rparr>
        \<and> bs = gzip_header (linux []) 1500000000 @ [1, 0, 0, 255, 255] @ [0, 0, 0, 0, 0, 0, 0, 0]
        \<and> length bs = 18 + 5"
proof -
  have "deflateInit2 stored_lib 6 = (Z_OK, ([], False))"
    and "deflate stored_lib ([], False) [] (nat BUF_SIZE) Z_FINISH
           = (Z_STREAM_END, 0, [1, 0, 0, 255, 255], ([], True))"
    and "deflateEnd stored_lib ([], True) = Z_OK"
    by (simp_all add: stored_lib_def stored_block_def BUF_SIZE_def Let_def)
  from compressGzipFile_empty_source [of "linux []" "''src''" "''a.txt''" "''dst''", OF _ _ _ _ this]
  show ?thesis
    by (simp add: linux_def calculateFilenameWithPath_def fromNativeSeparators_def
        endsWith_slash_def cdiv_def le32_def mz_crc32.simps MZ_CRC32_INIT_def BUF_SIZE_def)
qed

text \<open>
  C5 as stated fails: the destination of an empty source has 23 bytes with the reference
  compressor, and 20 bytes with a compressor that ends the empty input with the two bytes
  of an empty fixed-Huffman block, as zlib does: the DEFLATE stream of the empty input
  lies between header and footer.
\<close>

theorem compressGzipFile_empty_source_not_18_bytes:
  "compressGzipFile stored_lib (linux []) ''a.txt'' ''src'' ''dst'' 6 =
     Some \<lparr>rc = 0,
           written = Some (''dst/a.txt.gz'',
             [31, 139, 8, 0, 0, 47, 104, 89, 0, 3] @ [1, 0, 0, 255, 255]
               @ [0, 0, 0, 0, 0, 0, 0, 0]),
           zip_calls = []\<rparr>
   \<and> length ([31, 139, 8, 0, 0, 47, 104, 89, 0, 3] @ [1, 0, 0, 255, 255]
               @ [0, 0, 0, 0, 0, 0, 0, 0 :: byte]) = 23
   \<and> compressGzipFile (stored_lib\<lparr>deflate := \<lambda>s input avail_out fl. (Z_STREAM_END, 0, [3, 0], s)\<rparr>)
         (linux []) ''a.txt'' ''src'' ''dst'' 6 =
     Some \<lparr>rc = 0,
           written = Some (''dst/a.txt.gz'',
             [31, 139, 8, 0, 0, 47, 104, 89, 0, 3] @ [3, 0] @ [0, 0, 0, 0, 0, 0, 0, 0]),
           zip_calls = []\<rparr>"
  by (simp add: run_empty) (simp add: run_defs gz_loop.simps)

text \<open>
  However many calls the compressor takes, a run on an empty source that returns 0 has
  written the header, some payload and eight zero bytes.
\<close>

lemma compressGzipFile_empty_source_any_run:
  assumes "compressGzipFile lib e fn sp dp lev = Some out" and "rc out = 0"
    and "files e (calculateFilenameWithPath e sp fn) = Some []"
    and "room e (calculateFilenameWithPath e dp (fn @ ''.gz'')) = None"
    and "\<forall>st input avail_out. fst (deflate lib st input avail_out Z_NO_FLUSH) \<noteq> Z_STREAM_END"
  shows "\<exists>payload. written out = Some (calculateFilenameWithPath e dp (fn @ ''.gz''),
             gzip_header e (word_of_int (cdiv (lastModified e (calculateFilenameWithPath e sp fn)) 1000))
               @ payload @ [0, 0, 0, 0, 0, 0, 0, 0])"
proof -
  obtain payload c where
    w: "written out = Some (calculateFilenameWithPath e dp (fn @ ''.gz''),
          gzip_header e (word_of_int
              (cdiv (lastModified e (calculateFilenameWithPath e sp fn)) 1000))
            @ payload @ le32 c @ le32 (word_of_int (int (length ([] :: byte list)) AND (LONG_MAX e - 1))))"
    and c: "c = mz_crc32 0 (Some [])"
    using compressGzipFile_success [OF assms(1-4)] assms(5) by blast
  have "le32 c = [0, 0, 0, 0]"
    by (simp add: c mz_crc32_Nil le32_def)
  moreover have "le32 (word_of_int (int (length ([] :: byte list)) AND (LONG_MAX e - 1)))
                   = [0, 0, 0, 0]"
    by (simp add: le32_def)
  ultimately show ?thesis
    using w by auto
qed

section \<open>The gzip header\<close>

lemma compressGzipFile_missing_source:
  assumes "files e (calculateFilenameWithPath e sp fn) = None"
  shows "compressGzipFile lib e fn sp dp lev
           = Some \<lparr>rc = E_FILE_NOT_OPEN, written = None, zip_calls = []\<rparr>"
  using assms unfolding compressGzipFile_def Let_def by simp

text \<open>
  C6: \<^verbatim>\<open>writeGzipHeader\<close> appends the ten bytes \<open>0x1F\<close>, \<open>0x8B\<close>, 8, 0, the four bytes
  of \<open>mtime\<close> from the least significant, 0 and the platform's OS byte; and every outcome
  of \<^verbatim>\<open>compressGzipFile\<close> past the opening of the files starts with the header for the
  source's modification time in milliseconds divided by 1000 and cut to 32 bits, before
  anything else. The disk must not be full.
\<close>

theorem gzip_header_layout:
  assumes "left pFile = None"
    and "compressGzipFile lib e i_filename i_srcpath i_dstpath level = Some out"
    and "rc out \<noteq> E_FILE_NOT_OPEN"
    and "room e (calculateFilenameWithPath e i_dstpath (i_filename @ ''.gz'')) = None"
  shows "writeGzipHeader e pFile mtime =
           (0, \<lparr>bytes = bytes pFile @
                   [0x1F, 0x8B, 8, 0,
                    ucast mtime, ucast (drop_bit 8 mtime), ucast (drop_bit 16 mtime),
                    ucast (drop_bit 24 mtime),
                    0, if WIN32 e then 0 else 3],
                left = None\<rparr>)
         \<and> (\<exists>rest. written out =
               Some (calculateFilenameWithPath e i_dstpath (i_filename @ ''.gz''),
                     bytes (snd (writeGzipHeader e \<lparr>bytes = [], left = None\<rparr>
                       (word_of_int (cdiv (lastModified e
                          (calculateFilenameWithPath e i_srcpath i_filename)) 1000))))
                     @ rest))"
proof -
  have "files e (calculateFilenameWithPath e i_srcpath i_filename) \<noteq> None"
  proof
    assume "files e (calculateFilenameWithPath e i_srcpath i_filename) = None"
    from compressGzipFile_missing_source [OF this, of lib i_dstpath level] assms(2)
    have "out = \<lparr>rc = E_FILE_NOT_OPEN, written = None, zip_calls = []\<rparr>"
      by simp
    with assms(3) show False by simp
  qed
  then obtain F where "files e (calculateFilenameWithPath e i_srcpath i_filename) = Some F"
    by auto
  from compressGzipFile_header_first [OF assms(2,3) this assms(4)]
  have "\<exists>rest. written out =
               Some (calculateFilenameWithPath e i_dstpath (i_filename @ ''.gz''),
                     bytes (snd (writeGzipHeader e \<lparr>bytes = [], left = None\<rparr>
                       (word_of_int (cdiv (lastModified e
                          (calculateFilenameWithPath e i_srcpath i_filename)) 1000))))
                     @ rest)"
    by (simp add: writeGzipHeader_unbounded)
  then show ?thesis
    by (simp add: writeGzipHeader_unbounded [OF assms(1)] gzip_header_def le32_def)
qed

text \<open>C6 for a source last modified 1500000000 seconds after the epoch.\<close>

theorem gzip_header_layout_witness:
  "writeGzipHeader (linux [0x41]) \<lparr>bytes = [], left = None\<rparr> 1500000000 =
     (0, \<lparr>bytes = [0x1F, 0x8B, 8, 0, 0x00, 0x2F, 0x68, 0x59, 0, 3], left = None\<rparr>)
   \<and> (\<exists>out rest. compressGzipFile stored_lib (linux [0x41]) ''a.txt'' ''src'' ''dst'' 6 = Some out
         \<and> written out = Some (''dst/a.txt.gz'',
              [0x1F, 0x8B, 8, 0, 0x00, 0x2F, 0x68, 0x59, 0, 3] @ rest))"
proof -
  have r: "room (linux [0x41]) (calculateFilenameWithPath (linux [0x41]) ''dst'' (''a.txt'' @ ''.gz''))
          = None"
    by (simp add: linux_def)
  have m: "cdiv (lastModified (linux [0x41])
             (calculateFilenameWithPath (linux [0x41]) ''src'' ''a.txt'')) 1000 = 1500000000"
    by (simp add: linux_def cdiv_def)
  have p: "calculateFilenameWithPath (linux [0x41]) ''dst'' (''a.txt'' @ ''.gz'') = ''dst/a.txt.gz''"
    by (simp add: linux_def calculateFilenameWithPath_def fromNativeSeparators_def
        endsWith_slash_def)
  have w: "\<not> WIN32 (linux [0x41])"
    by (simp add: linux_def)
  have h: "writeGzipHeader (linux [0x41]) \<lparr>bytes = [], left = None\<rparr> 1500000000 =
     (0, \<lparr>bytes = [0x1F, 0x8B, 8, 0, 0x00, 0x2F, 0x68, 0x59, 0, 3], left = None\<rparr>)"
    using gzip_header_layout [of "\<lparr>bytes = [], left = None\<rparr>", OF _ run_one_byte _ r,
      of 1500000000] w
    by (simp add: run_one_byte E_FILE_NOT_OPEN_def)
  from gzip_header_layout [of "\<lparr>bytes = [], left = None\<rparr>", OF _ run_one_byte _ r,
      of 1500000000]
  have "\<exists>rest. written \<lparr>rc = 0,
           written = Some (''dst/a.txt.gz'',
             [31, 139, 8, 0, 0, 47, 104, 89, 0, 3, 0, 1, 0, 254, 255, 65, 1, 0, 0, 255, 255,
              139, 158, 217, 211, 0, 0, 0, 0]),
           zip_calls = []\<rparr> = Some (''dst/a.txt.gz'',
              [0x1F, 0x8B, 8, 0, 0x00, 0x2F, 0x68, 0x59, 0, 3] @ rest)"
    by (simp add: E_FILE_NOT_OPEN_def m p h)
  with h show ?thesis
    by (simp add: run_one_byte)
qed

section \<open>The ZIP part: return codes and the archive handle\<close>

lemmas zip_defs = compressZipFile_def uncompressZipFile_def extract_files.simps
  calculateFilenameWithPath_def fromNativeSeparators_def endsWith_slash_def
  calculateNameCompliantWithZipAlgoMiniZ_def QString_replace_def ZIP_EXT_def fileName_def
  linux_def stored_lib_def Let_def

text \<open>
  C4 fails at each of its six places: when the library fails to open the archive, to add
  the file, to finalize or to close it, and when it fails to open an archive for reading
  or to extract an entry, the code returns \<^verbatim>\<open>EXIT_FAILURE\<close>, which is 1, and not
  \<^verbatim>\<open>E_MINIZ_ERROR\<close>, which is -3.
\<close>

theorem zip_library_failure_returns_EXIT_FAILURE:
  "rc (compressZipFile (stored_lib\<lparr>mz_zip_writer_init_file := \<lambda>p. False\<rparr>)
         (linux [0x41]) ''a.txt'' ''src'' ''dst'' 6) = 1
   \<and> rc (compressZipFile (stored_lib\<lparr>mz_zip_writer_add_file := \<lambda>a s c l. False\<rparr>)
         (linux [0x41]) ''a.txt'' ''src'' ''dst'' 6) = 1
   \<and> rc (compressZipFile (stored_lib\<lparr>mz_zip_writer_finalize_archive := False\<rparr>)
         (linux [0x41]) ''a.txt'' ''src'' ''dst'' 6) = 1
   \<and> rc (compressZipFile (stored_lib\<lparr>mz_zip_writer_end := False\<rparr>)
         (linux [0x41]) ''a.txt'' ''src'' ''dst'' 6) = 1
   \<and> rc (uncompressZipFile (stored_lib\<lparr>mz_zip_reader_init_file := \<lambda>p. False\<rparr>)
         ''dst/a.txt.zip'' ''out'') = 1
   \<and> rc (uncompressZipFile
         (stored_lib\<lparr>mz_zip_reader_get_num_files := 1,
                      mz_zip_reader_file_stat := \<lambda>i. Some ''a.txt.zip'',
                      mz_zip_reader_extract_to_file := \<lambda>i p. False\<rparr>)
         ''dst/a.txt.zip'' ''out'') = 1
   \<and> E_MINIZ_ERROR = - 3"
  by (simp add: zip_defs EXIT_FAILURE_def E_MINIZ_ERROR_def)

text \<open>
  C7 fails: when adding the file, finalizing the archive or extracting an entry fails,
  the function returns with the archive opened and neither \<^verbatim>\<open>mz_zip_writer_end\<close> nor
  \<^verbatim>\<open>mz_zip_reader_end\<close> called. The successful run, last, closes it once.
\<close>

theorem zip_failure_leaves_archive_open:
  "zip_calls (compressZipFile (stored_lib\<lparr>mz_zip_writer_add_file := \<lambda>a s c l. False\<rparr>)
         (linux [0x41]) ''a.txt'' ''src'' ''dst'' 6)
     = [Writer_init_file ''dst/a.txt.zip'' True,
        Writer_add_file ''a.txt.zip'' ''src/a.txt'' s_pComment 6 False]
   \<and> zip_calls (compressZipFile (stored_lib\<lparr>mz_zip_writer_finalize_archive := False\<rparr>)
         (linux [0x41]) ''a.txt'' ''src'' ''dst'' 6)
     = [Writer_init_file ''dst/a.txt.zip'' True,
        Writer_add_file ''a.txt.zip'' ''src/a.txt'' s_pComment 6 True,
        Writer_finalize_archive False]
   \<and> zip_calls (uncompressZipFile
         (stored_lib\<lparr>mz_zip_reader_get_num_files := 1,
                      mz_zip_reader_file_stat := \<lambda>i. Some ''a.txt.zip'',
                      mz_zip_reader_extract_to_file := \<lambda>i p. False\<rparr>)
         ''dst/a.txt.zip'' ''out'')
     = [Reader_init_file ''dst/a.txt.zip'' True,
        Reader_extract_to_file 0 ''out/a.txt.zip'' False]
   \<and> zip_calls (compressZipFile stored_lib (linux [0x41]) ''a.txt'' ''src'' ''dst'' 6)
     = [Writer_init_file ''dst/a.txt.zip'' True,
        Writer_add_file ''a.txt.zip'' ''src/a.txt'' s_pComment 6 True,
        Writer_finalize_archive True, Writer_end True]
   \<and> length (filter is_end
         (zip_calls (compressZipFile (stored_lib\<lparr>mz_zip_writer_add_file := \<lambda>a s c l. False\<rparr>)
            (linux [0x41]) ''a.txt'' ''src'' ''dst'' 6))) = 0
   \<and> length (filter is_end
         (zip_calls (uncompressZipFile
            (stored_lib\<lparr>mz_zip_reader_get_num_files := 1,
                         mz_zip_reader_file_stat := \<lambda>i. Some ''a.txt.zip'',
                         mz_zip_reader_extract_to_file := \<lambda>i p. False\<rparr>)
            ''dst/a.txt.zip'' ''out''))) = 0"
  by (simp add: zip_defs)

text \<open>The codes the ZIP functions can return at all.\<close>

lemma compressZipFile_rc:
  "rc (compressZipFile lib e i_filename i_srcpath i_dstpath level) = E_FILE_NOT_OPEN
   \<or> rc (compressZipFile lib e i_filename i_srcpath i_dstpath level) = EXIT_FAILURE
   \<or> rc (compressZipFile lib e i_filename i_srcpath i_dstpath level) = 0"
  by (simp add: compressZipFile_def Let_def)

lemma extract_files_rc:
  "fst (extract_files lib destDir count i calls) = None
   \<or> fst (extract_files lib destDir count i calls) = Some EXIT_FAILURE"
proof (induction lib destDir count i calls rule: extract_files.induct)
  case (1 lib destDir count i calls)
  show ?case
  proof (cases "i < count")
    case False
    then show ?thesis by (subst (1 2) extract_files.simps) simp
  next
    case True
    show ?thesis
    proof (cases "mz_zip_reader_file_stat lib i")
      case None
      with True 1(1) show ?thesis
        by (subst (1 2) extract_files.simps) simp
    next
      case (Some m_filename)
      show ?thesis
      proof (cases "mz_zip_reader_is_file_a_directory lib i")
        case is_dir: True
        with True Some 1(2) show ?thesis
          by (subst (1 2) extract_files.simps) simp
      next
        case is_file: False
        with True Some 1(3) show ?thesis
          by (subst (1 2) extract_files.simps) (simp add: Let_def)
      qed
    qed
  qed
qed

lemma uncompressZipFile_rc:
  "rc (uncompressZipFile lib filename destDir) = EXIT_FAILURE
   \<or> rc (uncompressZipFile lib filename destDir) = 0"
  using extract_files_rc [of lib destDir "mz_zip_reader_get_num_files lib" 0
      "[Reader_init_file filename (mz_zip_reader_init_file lib filename)]"]
  by (auto simp: uncompressZipFile_def Let_def split: prod.splits option.splits)

text \<open>A run of either function that returns 0 has closed the archive exactly once.\<close>

lemma compressZipFile_success_closes_once:
  assumes "rc (compressZipFile lib e i_filename i_srcpath i_dstpath level) = 0"
  shows "length (filter is_end
           (zip_calls (compressZipFile lib e i_filename i_srcpath i_dstpath level))) = 1"
  using assms
  by (simp add: compressZipFile_def Let_def E_FILE_NOT_OPEN_def EXIT_FAILURE_def
      split: if_splits)

lemma extract_files_no_end:
  "filter is_end (snd (extract_files lib destDir count i calls)) = filter is_end calls"
proof (induction lib destDir count i calls rule: extract_files.induct)
  case (1 lib destDir count i calls)
  show ?case
  proof (cases "i < count")
    case False
    then show ?thesis by (subst extract_files.simps) simp
  next
    case True
    show ?thesis
    proof (cases "mz_zip_reader_file_stat lib i")
      case None
      with True 1(1) show ?thesis
        by (subst extract_files.simps) simp
    next
      case (Some m_filename)
      show ?thesis
      proof (cases "mz_zip_reader_is_file_a_directory lib i")
        case is_dir: True
        with True Some 1(2) show ?thesis
          by (subst extract_files.simps) simp
      next
        case is_file: False
        with True Some 1(3) show ?thesis
          by (subst extract_files.simps) (simp add: Let_def)
      qed
    qed
  qed
qed

lemma uncompressZipFile_success_closes_once:
  assumes "rc (uncompressZipFile lib filename destDir) = 0"
  shows "length (filter is_end (zip_calls (uncompressZipFile lib filename destDir))) = 1"
proof (cases "mz_zip_reader_init_file lib filename \<and> 0 < mz_zip_reader_get_num_files lib")
  case False
  with assms show ?thesis
    by (auto simp: uncompressZipFile_def Let_def EXIT_FAILURE_def split: if_splits)
next
  case True
  obtain ro calls where
    r: "extract_files lib destDir (mz_zip_reader_get_num_files lib) 0
          [Reader_init_file filename True] = (ro, calls)"
    using prod.exhaust by blast
  have e: "filter is_end calls = []"
    using extract_files_no_end [of lib destDir "mz_zip_reader_get_num_files lib" 0
        "[Reader_init_file filename True]"] r by simp
  have "ro = None \<or> ro = Some EXIT_FAILURE"
    using extract_files_rc [of lib destDir "mz_zip_reader_get_num_files lib" 0
        "[Reader_init_file filename True]"] r by simp
  with assms True r have "ro = None"
    by (auto simp: uncompressZipFile_def Let_def EXIT_FAILURE_def)
  with True r e show ?thesis
    by (simp add: uncompressZipFile_def Let_def)
qed

section \<open>The size field in general\<close>

text \<open>Whenever \<^verbatim>\<open>compressGzipFile\<close> returns 0, the last four bytes are the masked length.\<close>

lemma gzip_footer_size_field:
  assumes "compressGzipFile lib e fn sp dp lev = Some out" and "rc out = 0"
    and "files e (calculateFilenameWithPath e sp fn) = Some F"
    and "room e (calculateFilenameWithPath e dp (fn @ ''.gz'')) = None"
  shows "\<exists>bs. written out = Some (calculateFilenameWithPath e dp (fn @ ''.gz''), bs)
              \<and> drop (length bs - 4) bs = le32 (word_of_int (int (length F) AND (LONG_MAX e - 1)))"
proof -
  obtain payload c where
    w: "written out = Some (calculateFilenameWithPath e dp (fn @ ''.gz''),
          gzip_header e (word_of_int
              (cdiv (lastModified e (calculateFilenameWithPath e sp fn)) 1000))
            @ payload @ le32 c @ le32 (word_of_int (int (length F) AND (LONG_MAX e - 1))))"
    using compressGzipFile_success [OF assms] by auto
  define xs where "xs = gzip_header e (word_of_int
              (cdiv (lastModified e (calculateFilenameWithPath e sp fn)) 1000)) @ payload"
  define m where "m = (word_of_int (int (length F) AND (LONG_MAX e - 1)) :: quint32)"
  have "drop (length (xs @ le32 c @ le32 m) - 4) (xs @ le32 c @ le32 m) = le32 m"
    by (rule footer_fields) (simp_all add: length_le32)
  moreover have "written out = Some (calculateFilenameWithPath e dp (fn @ ''.gz''),
                   xs @ le32 c @ le32 m)"
    using w by (simp add: xs_def m_def)
  ultimately show ?thesis
    unfolding m_def by blast
qed

text \<open>
  With a 64-bit \<^verbatim>\<open>long\<close> the mask \<^verbatim>\<open>LONG_MAX - 1\<close> keeps bits 1 to 31 of the size and
  clears bit 0; with a 32-bit \<^verbatim>\<open>long\<close> it clears bit 31 as well.
\<close>

lemma modsize_long64:
  "(word_of_int (int n AND (2 ^ 63 - 1 - 1)) :: quint32) = word_of_nat n AND 0xFFFFFFFE"
proof -
  have e: "(9223372036854775806 :: quint32) = 0xFFFFFFFE"
    unfolding word_eq_iff_unsigned [where ?'a = int] by simp
  have "(word_of_int (int n AND (2 ^ 63 - 1 - 1)) :: quint32)
          = word_of_nat n AND 9223372036854775806"
    by (simp add: of_int_and_eq)
  then show ?thesis
    by (simp only: e)
qed

lemma modsize_long32:
  "(word_of_int (int n AND (2 ^ 31 - 1 - 1)) :: quint32) = word_of_nat n AND 0x7FFFFFFE"
  by (simp add: of_int_and_eq)

end
